theory Spec2Isabelle
  imports Complex_Main "HOL-Library.Sublist" "HOL-Library.Multiset"
    "HOL-Library.Product_Lexorder"
begin

section \<open>The identification manager of floss/identification_manager.py\<close>

text \<open>
  The module runs the identification plugins over a set of functions, merges what they
  return into one dictionary per function, weighs the merged scores with a fixed table and
  ranks the functions by the weighted score.

  Modelling decisions, all of them visible in the definitions below:
  \<^item> A Python \<open>dict\<close> keeps its keys in insertion order, and the ranking depends on that
    order, so a dictionary is an association list in insertion order. A well-formed
    dictionary has each key once (\<open>distinct (map fst d)\<close>); the theorems that need it say so.
  \<^item> A function address is a Python \<open>int\<close>, hence \<open>int\<close>.
  \<^item> A score is a Python \<open>float\<close>: a number, an infinity or NaN (\<open>pyfloat\<close>). Float
    addition, multiplication and the reading of a literal belong to the runtime and round;
    they are parameters of the model (\<open>float_ops\<close>), and the theorems about the
    methods assume nothing about them. The examples run on binary64 arithmetic
    (\<open>b64_ops\<close>).
  \<^item> The builtin \<open>sorted\<close> belongs to the runtime as well and is a parameter. What Python
    promises of it is the predicate \<open>python_sorted\<close>: the result is a rearrangement of the
    input, and when no key is NaN it is the stable sort. With a NaN among the keys the
    comparisons are inconsistent and the order of the result is not determined here.
  \<^item> An exception is a value: a method that can raise returns a sum, \<open>Inl\<close> the exception.
  \<^item> A method that mutates the manager returns the manager after the call.
  \<^item> The plugins live in modules that are not part of this file. A plugin is a record of
    its name (\<open>str(plugin)\<close>) and its two operations; the operations may raise and may have
    effects of their own, which are threaded through a state \<open>'w\<close> of the plugins' world.
\<close>

subsection \<open>Dictionaries in insertion order\<close>

text \<open>
  \<open>d[k] = v\<close>: an existing key keeps its position and gets the new value, a new key goes
  to the end.
\<close>

fun dict_setitem :: "'k \<Rightarrow> 'v \<Rightarrow> ('k \<times> 'v) list \<Rightarrow> ('k \<times> 'v) list" where
  "dict_setitem k v [] = [(k, v)]"
| "dict_setitem k v ((k', v') # d) =
     (if k' = k then (k, v) # d else (k', v') # dict_setitem k v d)"

text \<open>\<open>xs[:n]\<close>: a negative \<open>n\<close> counts from the end of the list.\<close>

definition slice_upto :: "'a list \<Rightarrow> int \<Rightarrow> 'a list" where
  "slice_upto xs n =
     (if n < 0 then take (nat (int (length xs) + n)) xs else take (nat n) xs)"

subsection \<open>Floats\<close>

text \<open>
  The values of a Python float. The numbers of binary64 are finitely many of the reals;
  the model lets every real be a number, so what holds of every \<open>pyfloat\<close> holds of every
  float. The negative zero is not told apart from zero: the two compare equal.
\<close>

datatype pyfloat = NaN | NegInf | Num real | PosInf

text \<open>
  The place of a float in the order of the floats that are not NaN. NaN is ordered with
  nothing; it gets a key so that the function is total.
\<close>

fun fkey :: "pyfloat \<Rightarrow> int \<times> real" where
  "fkey NegInf = (- 1, 0)"
| "fkey (Num r) = (0, r)"
| "fkey PosInf = (1, 0)"
| "fkey NaN = (2, 0)"

text \<open>\<open>a <= b\<close> on floats: false as soon as one of them is NaN.\<close>

definition fle :: "pyfloat \<Rightarrow> pyfloat \<Rightarrow> bool" where
  "fle a b = (a \<noteq> NaN \<and> b \<noteq> NaN \<and> fkey a \<le> fkey b)"

text \<open>
  The float operations the module uses: \<open>a + b\<close>, \<open>a * b\<close> and the float that a decimal
  literal of the source denotes.
\<close>

record float_ops =
  fadd :: "pyfloat \<Rightarrow> pyfloat \<Rightarrow> pyfloat"
  fmul :: "pyfloat \<Rightarrow> pyfloat \<Rightarrow> pyfloat"
  flit :: "real \<Rightarrow> pyfloat"

subsection \<open>The builtin sorted\<close>

text \<open>\<open>sorted(xs, key=key, reverse=reverse)\<close> as a function of its three arguments.\<close>

type_synonym 'a sorter = "('a \<Rightarrow> pyfloat) \<Rightarrow> bool \<Rightarrow> 'a list \<Rightarrow> 'a list"

text \<open>
  The stable sort by key: ascending, and with \<open>reverse\<close> descending, in both cases with
  items of equal key in the order of the input (descending: reverse the list, sort it
  ascending, reverse the result). \<^const>\<open>sort_key\<close> is a stable insertion sort. It is
  one sort that keeps Python's promise; where a key is NaN it is not meant to give what
  Python's own \<open>sorted\<close> gives.
\<close>

definition stable_sorted :: "'a sorter" where
  "stable_sorted key reverse xs =
     (if reverse then rev (sort_key (\<lambda>x. fkey (key x)) (rev xs))
      else sort_key (\<lambda>x. fkey (key x)) xs)"

text \<open>
  What Python promises of \<open>sorted\<close>: the result holds the items of the input, each as
  often as the input does, and when no key is NaN it is the stable sort.
\<close>

definition python_sorted :: "'a sorter \<Rightarrow> bool" where
  "python_sorted srt =
     (\<forall>key reverse xs.
        mset (srt key reverse xs) = mset xs \<and>
        (list_all (\<lambda>x. key x \<noteq> NaN) xs \<longrightarrow> srt key reverse xs = stable_sorted key reverse xs))"

subsection \<open>Data\<close>

type_synonym addr = int

text \<open>What a plugin returns: function address to score.\<close>
type_synonym candidates = "(addr \<times> pyfloat) list"

text \<open>One function's entry of \<open>candidate_functions\<close>: plugin name to score.\<close>
type_synonym plugin_scores = "(string \<times> pyfloat) list"

type_synonym candidate_store = "(addr \<times> plugin_scores) list"

type_synonym weighted_scores = "(addr \<times> pyfloat) list"

text \<open>
  The exceptions of the module: \<open>raise Exception(msg)\<close> in \<open>apply_plugin_weights\<close>,
  the \<open>AttributeError\<close> of \<open>None.items()\<close> when the candidates are sorted before they were
  weighted, and whatever a plugin raises.
\<close>

datatype 'x exn = Exception string | AttributeError | PluginRaised 'x

record 'vw manager =
  vw :: 'vw
  candidate_functions :: candidate_store
  candidates_weighted :: "weighted_scores option"

record ('vw, 'w, 'x) plugin =
  plugin_str :: string
  identify :: "'vw \<Rightarrow> addr list \<Rightarrow> 'w \<Rightarrow> ('x exn + candidates option) \<times> 'w"
  score :: "candidates option \<Rightarrow> 'vw \<Rightarrow> 'w \<Rightarrow> ('x exn + candidates option) \<times> 'w"

subsection \<open>The weight table\<close>

text \<open>
  The table as the source writes it, each weight the decimal number of its literal. The
  float that enters the arithmetic is \<open>flit\<close> of that number.
\<close>

definition PLUGIN_WEIGHTS :: "(string \<times> real) list" where
  "PLUGIN_WEIGHTS =
     [(''XORPlugin'', 0.5),
      (''ShiftPlugin'', 0.5),
      (''MovPlugin'', 0.3),
      (''FunctionCrossReferencesToPlugin'', 0.2),
      (''FunctionArgumentCountPlugin'', 0.2),
      (''FunctionBlockCountPlugin'', 0.025),
      (''FunctionInstructionCountPlugin'', 0.025),
      (''FunctionSizePlugin'', 0.025),
      (''FunctionRecursivePlugin'', 0.025),
      (''FunctionIsThunkPlugin'', - 1.0),
      (''FunctionIsLibraryPlugin'', - 1.0)]"

subsection \<open>The methods of IdentificationManager\<close>

definition init_manager :: "'vw \<Rightarrow> 'vw manager" where
  "init_manager w = \<lparr>vw = w, candidate_functions = [], candidates_weighted = None\<rparr>"

text \<open>
  One turn of the loop of \<open>merge_candidates\<close>. Iterating over the keys of
  \<open>plugin_candidates\<close> and reading \<open>plugin_candidates[candidate_function]\<close> is iterating
  over its items. A function that is already a key gets the plugin's score written into
  its entry, in place; a new function gets a fresh entry with this one score.
\<close>

fun merge_candidate :: "string \<Rightarrow> candidate_store \<Rightarrow> addr \<times> pyfloat \<Rightarrow> candidate_store" where
  "merge_candidate plugin_name cf (candidate_function, s) =
     (case map_of cf candidate_function of
        Some entry \<Rightarrow>
          dict_setitem candidate_function (dict_setitem plugin_name s entry) cf
      | None \<Rightarrow>
          dict_setitem candidate_function (dict_setitem plugin_name s [])
            (dict_setitem candidate_function [] cf))"

text \<open>
  \<open>merge_candidates\<close>: \<open>not plugin_candidates\<close> holds of \<open>None\<close> and of the empty
  dictionary, and then the method returns at once. (What the method returns, the
  dictionary in that case and \<open>None\<close> otherwise, is used by no caller and is not
  modelled.)
\<close>

definition merge_candidates ::
  "'vw manager \<Rightarrow> string \<Rightarrow> candidates option \<Rightarrow> 'vw manager" where
  "merge_candidates m plugin_name plugin_candidates =
     (case plugin_candidates of
        None \<Rightarrow> m
      | Some [] \<Rightarrow> m
      | Some (c # cs) \<Rightarrow>
          m\<lparr>candidate_functions :=
              foldl (merge_candidate plugin_name) (candidate_functions m) (c # cs)\<rparr>)"

text \<open>
  \<open>run_plugins\<close>: the plugins run in the order of the list. An exception of \<open>identify\<close>
  or \<open>score\<close> is not caught, so it ends the loop; the manager keeps what was merged
  before.
\<close>

fun run_plugins ::
  "'vw manager \<Rightarrow> ('vw, 'w, 'x) plugin list \<Rightarrow> addr list \<Rightarrow> bool \<Rightarrow> 'w \<Rightarrow>
     ('x exn + unit) \<times> 'vw manager \<times> 'w" where
  "run_plugins m [] functions raw_data w = (Inr (), m, w)"
| "run_plugins m (p # plugins) functions raw_data w =
     (case identify p (vw m) functions w of
        (Inl e, w1) \<Rightarrow> (Inl e, m, w1)
      | (Inr decoder_candidates, w1) \<Rightarrow>
          if raw_data then
            run_plugins (merge_candidates m (plugin_str p) decoder_candidates)
              plugins functions raw_data w1
          else
            (case score p decoder_candidates (vw m) w1 of
               (Inl e, w2) \<Rightarrow> (Inl e, m, w2)
             | (Inr scored_candidates, w2) \<Rightarrow>
                 run_plugins (merge_candidates m (plugin_str p) scored_candidates)
                   plugins functions raw_data w2))"

text \<open>
  The inner loop of \<open>apply_plugin_weights\<close>, from the running \<open>total_score\<close> (here \<open>t\<close>): a
  plugin name that is not a key of the weight table raises; otherwise the float product
  of the weight and the score is added, in floats, to the running total.
\<close>

fun total_score :: "float_ops \<Rightarrow> pyfloat \<Rightarrow> plugin_scores \<Rightarrow> 'x exn + pyfloat" where
  "total_score ops t [] = Inr t"
| "total_score ops t ((plugin_name, s) # rest) =
     (case map_of PLUGIN_WEIGHTS plugin_name of
        None \<Rightarrow> Inl (Exception (''Plugin weight not found: '' @ plugin_name))
      | Some weight \<Rightarrow> total_score ops (fadd ops t (fmul ops (flit ops weight) s)) rest)"

text \<open>
  The outer loop, from the \<open>functions_weighted\<close> built so far. Each total starts from the
  literal \<open>0.0\<close>.
\<close>

fun weigh_functions ::
  "float_ops \<Rightarrow> weighted_scores \<Rightarrow> candidate_store \<Rightarrow> 'x exn + weighted_scores" where
  "weigh_functions ops functions_weighted [] = Inr functions_weighted"
| "weigh_functions ops functions_weighted ((candidate_function, plugin_score) # rest) =
     (case total_score ops (flit ops 0.0) plugin_score of
        Inl e \<Rightarrow> Inl e
      | Inr t \<Rightarrow>
          weigh_functions ops (dict_setitem candidate_function t functions_weighted) rest)"

text \<open>
  \<open>apply_plugin_weights\<close>: \<open>candidates_weighted\<close> is assigned after the loops, so an
  exception leaves the manager as it was.
\<close>

definition apply_plugin_weights ::
  "float_ops \<Rightarrow> 'vw manager \<Rightarrow> ('x exn + unit) \<times> 'vw manager" where
  "apply_plugin_weights ops m =
     (case weigh_functions ops [] (candidate_functions m) of
        Inl e \<Rightarrow> (Inl e, m)
      | Inr functions_weighted \<Rightarrow>
          (Inr (), m\<lparr>candidates_weighted := Some functions_weighted\<rparr>))"

text \<open>
  \<open>sort_candidates_by_score\<close>: \<open>sorted(..., key=operator.itemgetter(1), reverse=True)\<close>
  over the items of \<open>candidates_weighted\<close>.
\<close>

definition sort_candidates_by_score ::
  "(addr \<times> pyfloat) sorter \<Rightarrow> 'vw manager \<Rightarrow> 'x exn + weighted_scores" where
  "sort_candidates_by_score srt m =
     (case candidates_weighted m of
        None \<Rightarrow> Inl AttributeError
      | Some cw \<Rightarrow> Inr (srt snd True cw))"

definition get_top_candidate_functions ::
  "(addr \<times> pyfloat) sorter \<Rightarrow> 'vw manager \<Rightarrow> int \<Rightarrow> 'x exn + weighted_scores" where
  "get_top_candidate_functions srt m n =
     (case sort_candidates_by_score srt m of
        Inl e \<Rightarrow> Inl e
      | Inr ranked \<Rightarrow> Inr (map (\<lambda>(fva, sc). (fva, sc)) (slice_upto ranked n)))"

definition get_candidate_functions :: "'vw manager \<Rightarrow> candidate_store" where
  "get_candidate_functions m = candidate_functions m"

subsection \<open>The entry point\<close>

text \<open>
  \<open>identify_decoding_functions\<close>. The list of plugins is what \<open>get_all_plugins()\<close>
  returns; the plugin classes are not in this module, so the list is a parameter. The
  manager is local to the call. The argument \<open>count\<close> is \<open>cnt\<close> here.
\<close>

definition identify_decoding_functions ::
  "float_ops \<Rightarrow> (addr \<times> pyfloat) sorter \<Rightarrow> ('vw, 'w, 'x) plugin list \<Rightarrow> 'vw \<Rightarrow>
     addr list \<Rightarrow> int \<Rightarrow> 'w \<Rightarrow> ('x exn + weighted_scores) \<times> 'w" where
  "identify_decoding_functions ops srt all_plugins w0 functions cnt w =
     (case run_plugins (init_manager w0) all_plugins functions False w of
        (Inl e, m1, w1) \<Rightarrow> (Inl e, w1)
      | (Inr u, m1, w1) \<Rightarrow>
          (case apply_plugin_weights ops m1 of
             (Inl e, m2) \<Rightarrow> (Inl e, w1)
           | (Inr u', m2) \<Rightarrow> (get_top_candidate_functions srt m2 cnt, w1)))"

subsection \<open>Reading the store\<close>

text \<open>
  Two dictionaries are equal in Python when they have the same keys with equal values,
  whatever the insertion order. \<open>store_view\<close> is the candidate store read that way:
  function address to the mapping from plugin name to score.
\<close>

definition store_view :: "candidate_store \<Rightarrow> addr \<Rightarrow> (string \<rightharpoonup> pyfloat) option" where
  "store_view cf f = map_option map_of (map_of cf f)"

definition entry_or_empty :: "(string \<rightharpoonup> pyfloat) option \<Rightarrow> (string \<rightharpoonup> pyfloat)" where
  "entry_or_empty e = (case e of None \<Rightarrow> Map.empty | Some x \<Rightarrow> x)"

text \<open>\<open>candidate_functions[f][p]\<close>, \<open>None\<close> when either key is missing.\<close>

definition lookup_score :: "candidate_store \<Rightarrow> addr \<Rightarrow> string \<Rightarrow> pyfloat option" where
  "lookup_score cf f p = (case map_of cf f of None \<Rightarrow> None | Some entry \<Rightarrow> map_of entry p)"

text \<open>The score that the loop of \<open>merge_candidates\<close> writes last for a function.\<close>

definition last_score :: "candidates option \<Rightarrow> addr \<Rightarrow> pyfloat option" where
  "last_score r f = (case r of None \<Rightarrow> None | Some c \<Rightarrow> map_of (rev c) f)"

subsection \<open>Reading the scores\<close>

text \<open>The plugin names of a store in the order \<open>apply_plugin_weights\<close> meets them.\<close>

definition plugin_names :: "candidate_store \<Rightarrow> string list" where
  "plugin_names cf = concat (map (\<lambda>(f, entry). map fst entry) cf)"

text \<open>\<open>plugin_name in self.PLUGIN_WEIGHTS.keys()\<close>\<close>

definition has_weight :: "string \<Rightarrow> bool" where
  "has_weight p = (map_of PLUGIN_WEIGHTS p \<noteq> None)"

text \<open>
  A store is a well-formed dictionary of well-formed dictionaries when no function address
  and, within an entry, no plugin name occurs twice as a key.
\<close>

definition wf_store :: "candidate_store \<Rightarrow> bool" where
  "wf_store cf = (distinct (map fst cf) \<and> list_all (\<lambda>(f, entry). distinct (map fst entry)) cf)"

text \<open>
  The float sum of weight times score over the items of one entry: begun at the literal
  \<open>0.0\<close>, one term for each plugin name of the entry and for no other, added from left to
  right in the order of the entry.
\<close>

definition weighted_sum :: "float_ops \<Rightarrow> plugin_scores \<Rightarrow> pyfloat" where
  "weighted_sum ops entry =
     foldl (\<lambda>t (p, s). fadd ops t (fmul ops (flit ops (the (map_of PLUGIN_WEIGHTS p))) s))
       (flit ops 0.0) entry"

text \<open>No score of the mapping is NaN.\<close>

definition nan_free :: "weighted_scores \<Rightarrow> bool" where
  "nan_free cw = list_all (\<lambda>x. snd x \<noteq> NaN) cw"

text \<open>A ranking is in descending order of score: each score is \<open>>=\<close> all that follow.\<close>

definition descending :: "weighted_scores \<Rightarrow> bool" where
  "descending xs = sorted_wrt (\<lambda>a b. fle (snd b) (snd a)) xs"

subsection \<open>Binary64 arithmetic\<close>

text \<open>
  Python's floats are IEEE 754 binary64 numbers, and \<open>+\<close>, \<open>*\<close> and the reading of a
  literal give the exact result rounded to the nearest binary64 number, a tie going to
  the one with the even significand. \<open>b64_ops\<close> is that arithmetic, the one instance
  of \<open>float_ops\<close> the examples run on.

  Rounding a real to the nearest integer, ties to even:
\<close>

definition round_half_even :: "real \<Rightarrow> int" where
  "round_half_even y =
     (let f = \<lfloor>y\<rfloor>; d = y - of_int f
      in if d < 1 / 2 then f else if 1 / 2 < d then f + 1 else if even f then f else f + 1)"

text \<open>
  Rounding a real to binary64. A number \<open>x\<close> with \<open>2^e <= |x| < 2^(e+1)\<close> is rounded to a
  multiple of \<open>2^(e-52)\<close>; below \<open>2^-1022\<close> the spacing stays \<open>2^-1074\<close> (subnormal
  numbers), and a rounded magnitude of \<open>2^1024\<close> or more is an infinity.
\<close>

definition b64_round :: "real \<Rightarrow> pyfloat" where
  "b64_round x =
     (if x = 0 then Num 0
      else
        let e = max \<lfloor>log 2 \<bar>x\<bar>\<rfloor> (- 1022);
            u = (2::real) powi (e - 52);
            r = real_of_int (round_half_even (x / u)) * u
        in if 2 powi 1024 \<le> \<bar>r\<bar> then (if 0 < x then PosInf else NegInf) else Num r)"

text \<open>\<open>a + b\<close>: NaN stays NaN, opposite infinities give NaN, an infinity stays.\<close>

fun b64_add :: "pyfloat \<Rightarrow> pyfloat \<Rightarrow> pyfloat" where
  "b64_add (Num a) (Num b) = b64_round (a + b)"
| "b64_add NaN b = NaN"
| "b64_add a NaN = NaN"
| "b64_add PosInf NegInf = NaN"
| "b64_add NegInf PosInf = NaN"
| "b64_add PosInf b = PosInf"
| "b64_add a PosInf = PosInf"
| "b64_add NegInf b = NegInf"
| "b64_add a NegInf = NegInf"

text \<open>
  \<open>a * b\<close>: NaN stays NaN, zero times an infinity is NaN, otherwise an infinity with the
  product of the signs.
\<close>

fun b64_mul :: "pyfloat \<Rightarrow> pyfloat \<Rightarrow> pyfloat" where
  "b64_mul (Num a) (Num b) = b64_round (a * b)"
| "b64_mul NaN b = NaN"
| "b64_mul a NaN = NaN"
| "b64_mul (Num a) b =
     (if a = 0 then NaN else if (0 < a) = (b = PosInf) then PosInf else NegInf)"
| "b64_mul a (Num b) =
     (if b = 0 then NaN else if (0 < b) = (a = PosInf) then PosInf else NegInf)"
| "b64_mul a b = (if a = b then PosInf else NegInf)"

definition b64_ops :: float_ops where
  "b64_ops = \<lparr>fadd = b64_add, fmul = b64_mul, flit = b64_round\<rparr>"

subsection \<open>Two plugins for the examples\<close>

text \<open>
  The plugins' world is here the log of the calls made. \<open>returning_plugin\<close> returns a
  fixed result from \<open>identify\<close> and scores it unchanged; \<open>raising_plugin\<close> raises in
  \<open>identify\<close>.
\<close>

definition returning_plugin ::
  "string \<Rightarrow> candidates option \<Rightarrow> ('vw, string list, 'x) plugin" where
  "returning_plugin name r =
     \<lparr>plugin_str = name,
      identify = (\<lambda>v fs w. (Inr r, w @ [''identify '' @ name])),
      score = (\<lambda>c v w. (Inr c, w @ [''score '' @ name]))\<rparr>"

definition raising_plugin :: "string \<Rightarrow> 'x \<Rightarrow> ('vw, string list, 'x) plugin" where
  "raising_plugin name x =
     \<lparr>plugin_str = name,
      identify = (\<lambda>v fs w. (Inl (PluginRaised x), w @ [''identify '' @ name])),
      score = (\<lambda>c v w. (Inr c, w @ [''score '' @ name]))\<rparr>"

section \<open>Merging with nothing\<close>

text \<open>
  Claim C8. Merging an absent result (\<open>None\<close>) or an empty result mapping into the
  candidate store, under any plugin name, leaves the manager exactly as it was: no entry
  is added, removed or changed.
\<close>

theorem merge_candidates_empty_noop:
  "merge_candidates m plugin_name None = m \<and> merge_candidates m plugin_name (Some []) = m"
  by (simp add: merge_candidates_def)

section \<open>Facts about dictionaries\<close>

lemma map_of_dict_setitem: "map_of (dict_setitem k v d) = (map_of d)(k \<mapsto> v)"
  by (induction d) (auto simp: fun_eq_iff)

lemma keys_dict_setitem:
  "map fst (dict_setitem k v d) = (if k \<in> set (map fst d) then map fst d else map fst d @ [k])"
  by (induction d) force+

section \<open>Merging\<close>

lemma store_view_merge_candidate:
  "store_view (merge_candidate p cf (f, s)) =
     (store_view cf)(f \<mapsto> (entry_or_empty (store_view cf f))(p \<mapsto> s))"
  by (auto simp: store_view_def entry_or_empty_def map_of_dict_setitem fun_eq_iff split: option.splits)

lemma store_view_foldl:
  "store_view (foldl (merge_candidate p) cf r) g =
     (case map_of (rev r) g of
        None \<Rightarrow> store_view cf g
      | Some s \<Rightarrow> Some ((entry_or_empty (store_view cf g))(p \<mapsto> s)))"
proof (induction r rule: rev_induct)
  case Nil
  then show ?case by simp
next
  case (snoc x xs)
  obtain f s where x: "x = (f, s)" by (cases x)
  show ?case
    using snoc
    by (auto simp: x store_view_merge_candidate entry_or_empty_def simp del: merge_candidate.simps split: option.splits)
qed

lemma lookup_score_view:
  "lookup_score cf f p = (case store_view cf f of None \<Rightarrow> None | Some e \<Rightarrow> e p)"
  by (simp add: lookup_score_def store_view_def split: option.splits)

lemma store_view_merge_candidates:
  "store_view (candidate_functions (merge_candidates m p r)) g =
     (case last_score r g of
        None \<Rightarrow> store_view (candidate_functions m) g
      | Some s \<Rightarrow> Some ((entry_or_empty (store_view (candidate_functions m) g))(p \<mapsto> s)))"
proof (cases r)
  case None
  then show ?thesis by (simp add: merge_candidates_def last_score_def)
next
  case (Some c)
  show ?thesis
  proof (cases c)
    case Nil
    with Some show ?thesis by (simp add: merge_candidates_def last_score_def)
  next
    case (Cons x xs)
    have "store_view (candidate_functions (merge_candidates m p r)) g =
            store_view (foldl (merge_candidate p) (candidate_functions m) c) g"
      using Some Cons by (simp add: merge_candidates_def)
    then show ?thesis
      using Some by (simp add: store_view_foldl last_score_def)
  qed
qed

lemma map_of_rev_distinct: "distinct (map fst c) \<Longrightarrow> map_of (rev c) k = map_of c k"
proof (induction c)
  case Nil
  then show ?case by simp
next
  case (Cons x xs)
  obtain a b where x: "x = (a, b)" by (cases x)
  from Cons.prems have n: "map_of (rev xs) a = None"
    by (simp add: x map_of_eq_None_iff)
  from Cons show ?case
    by (auto simp: x n map_add_def split: option.splits)
qed

lemma last_score_distinct:
  "distinct (map fst c) \<Longrightarrow> last_score (Some c) = map_of c"
  by (simp add: last_score_def fun_eq_iff map_of_rev_distinct)

text \<open>
  Claim C5. Merge two result mappings \<open>r1\<close> and then \<open>r2\<close> under the same plugin name
  \<open>p\<close>. Afterwards every function address of \<open>r2\<close> has \<open>r2\<close>'s score under the key
  \<open>p\<close> (the second merge wins), and for every function address every key of another
  plugin has exactly the value it had before the two merges (absent keys stay absent).
\<close>

theorem merge_candidates_twice:
  "(\<forall>c f s. r2 = Some c \<and> distinct (map fst c) \<and> map_of c f = Some s \<longrightarrow>
       lookup_score (candidate_functions (merge_candidates (merge_candidates m p r1) p r2)) f p
         = Some s) \<and>
   (\<forall>f q. q \<noteq> p \<longrightarrow>
       lookup_score (candidate_functions (merge_candidates (merge_candidates m p r1) p r2)) f q
         = lookup_score (candidate_functions m) f q)"
proof (intro conjI allI impI)
  fix c f s
  assume a: "r2 = Some c \<and> distinct (map fst c) \<and> map_of c f = Some s"
  then have "last_score r2 f = Some s"
    by (simp add: last_score_distinct)
  then show "lookup_score (candidate_functions (merge_candidates (merge_candidates m p r1) p r2)) f p
         = Some s"
    by (simp add: lookup_score_view store_view_merge_candidates)
next
  fix f q
  assume "q \<noteq> p"
  then show "lookup_score (candidate_functions (merge_candidates (merge_candidates m p r1) p r2)) f q
         = lookup_score (candidate_functions m) f q"
    by (simp add: lookup_score_view store_view_merge_candidates entry_or_empty_def
          split: option.splits)
qed

text \<open>
  Claim C6. For two distinct plugin names \<open>A\<close> and \<open>B\<close>, merging \<open>A\<close>'s results and
  then \<open>B\<close>'s gives a candidate store equal, as a dictionary, to the one obtained by
  merging \<open>B\<close>'s results and then \<open>A\<close>'s: the same function addresses, and for each
  address the same mapping from plugin name to score.
\<close>

theorem merge_candidates_commute:
  assumes "A \<noteq> B"
  shows "store_view (candidate_functions (merge_candidates (merge_candidates m A ra) B rb)) =
         store_view (candidate_functions (merge_candidates (merge_candidates m B rb) A ra)) \<and>
         set (map fst (candidate_functions (merge_candidates (merge_candidates m A ra) B rb))) =
         set (map fst (candidate_functions (merge_candidates (merge_candidates m B rb) A ra)))"
proof -
  have v: "store_view (candidate_functions (merge_candidates (merge_candidates m A ra) B rb)) =
         store_view (candidate_functions (merge_candidates (merge_candidates m B rb) A ra))"
  proof
    fix g
    show "store_view (candidate_functions (merge_candidates (merge_candidates m A ra) B rb)) g =
         store_view (candidate_functions (merge_candidates (merge_candidates m B rb) A ra)) g"
      using assms
      by (auto simp: store_view_merge_candidates entry_or_empty_def fun_upd_twist
            split: option.splits)
  qed
  have k: "set (map fst cf) = dom (store_view cf)" for cf
    by (auto simp: store_view_def dom_def map_of_eq_None_iff image_iff)
  show ?thesis using v by (simp only: k simp_thms)
qed

theorem merge_candidates_twice_witness:
  "distinct (map fst [(1::int, Num 0.75)]) \<and> map_of [(1::int, Num 0.75)] 1 = Some (Num 0.75) \<and>
   ''MovPlugin'' \<noteq> ''XORPlugin'' \<and>
   lookup_score (candidate_functions (merge_candidates (merge_candidates
       \<lparr>vw = (), candidate_functions = [(1, [(''MovPlugin'', Num 1)])],
         candidates_weighted = None\<rparr>
       ''XORPlugin'' (Some [(1, Num 0.5), (2, Num 0.25)])) ''XORPlugin'' (Some [(1, Num 0.75)])))
     1 ''XORPlugin'' = Some (Num 0.75) \<and>
   lookup_score (candidate_functions (merge_candidates (merge_candidates
       \<lparr>vw = (), candidate_functions = [(1, [(''MovPlugin'', Num 1)])],
         candidates_weighted = None\<rparr>
       ''XORPlugin'' (Some [(1, Num 0.5), (2, Num 0.25)])) ''XORPlugin'' (Some [(1, Num 0.75)])))
     1 ''MovPlugin'' = Some (Num 1)"
proof -
  have h: "Some [(1::int, Num 0.75)] = Some [(1, Num 0.75)] \<and>
           distinct (map fst [(1::int, Num 0.75)]) \<and>
           map_of [(1::int, Num 0.75)] 1 = Some (Num 0.75)"
    by simp
  have n: "''MovPlugin'' \<noteq> ''XORPlugin''" by simp
  show ?thesis
    using h n
      merge_candidates_twice [where ?r2.0 = "Some [(1, Num 0.75)]" and p = "''XORPlugin''"
        and ?r1.0 = "Some [(1, Num 0.5), (2, Num 0.25)]"
        and m = "\<lparr>vw = (), candidate_functions = [(1, [(''MovPlugin'', Num 1)])],
                  candidates_weighted = None\<rparr>"]
    by (simp add: lookup_score_def)
qed

theorem merge_candidates_commute_witness:
  "''XORPlugin'' \<noteq> ''MovPlugin'' \<and>
   store_view (candidate_functions (merge_candidates (merge_candidates (init_manager ())
       ''XORPlugin'' (Some [(1, Num 0.5)])) ''MovPlugin'' (Some [(2, Num 1), (1, Num 0.25)]))) =
   store_view (candidate_functions (merge_candidates (merge_candidates (init_manager ())
       ''MovPlugin'' (Some [(2, Num 1), (1, Num 0.25)])) ''XORPlugin'' (Some [(1, Num 0.5)]))) \<and>
   set (map fst (candidate_functions (merge_candidates (merge_candidates (init_manager ())
       ''XORPlugin'' (Some [(1, Num 0.5)])) ''MovPlugin'' (Some [(2, Num 1), (1, Num 0.25)])))) =
   set (map fst (candidate_functions (merge_candidates (merge_candidates (init_manager ())
       ''MovPlugin'' (Some [(2, Num 1), (1, Num 0.25)])) ''XORPlugin'' (Some [(1, Num 0.5)]))))"
proof -
  have n: "''XORPlugin'' \<noteq> ''MovPlugin''" by simp
  show ?thesis
    using n merge_candidates_commute [OF n, where m = "init_manager ()"
        and ra = "Some [(1, Num 0.5)]" and rb = "Some [(2, Num 1), (1, Num 0.25)]"]
    by simp
qed

text \<open>Only the insertion order of the two stores differs.\<close>

lemma merge_candidates_order:
  "candidate_functions (merge_candidates (merge_candidates (init_manager ())
       ''XORPlugin'' (Some [(1, Num 0.5)])) ''MovPlugin'' (Some [(2, Num 1), (1, Num 0.25)])) =
     [(1, [(''XORPlugin'', Num 0.5), (''MovPlugin'', Num 0.25)]), (2, [(''MovPlugin'', Num 1)])] \<and>
   candidate_functions (merge_candidates (merge_candidates (init_manager ())
       ''MovPlugin'' (Some [(2, Num 1), (1, Num 0.25)])) ''XORPlugin'' (Some [(1, Num 0.5)])) =
     [(2, [(''MovPlugin'', Num 1)]), (1, [(''MovPlugin'', Num 0.25), (''XORPlugin'', Num 0.5)])]"
  by (simp add: merge_candidates_def init_manager_def)

section \<open>The weight table\<close>

text \<open>
  Claim C9. The weight table is a constant that gives exactly eleven plugin names a
  weight: XORPlugin 0.5, ShiftPlugin 0.5, MovPlugin 0.3, FunctionCrossReferencesToPlugin
  0.2, FunctionArgumentCountPlugin 0.2, FunctionBlockCountPlugin 0.025,
  FunctionInstructionCountPlugin 0.025, FunctionSizePlugin 0.025, FunctionRecursivePlugin
  0.025, FunctionIsThunkPlugin -1.0, FunctionIsLibraryPlugin -1.0. No other name has one.
\<close>

theorem PLUGIN_WEIGHTS_table:
  "map_of PLUGIN_WEIGHTS ''XORPlugin'' = Some 0.5 \<and>
   map_of PLUGIN_WEIGHTS ''ShiftPlugin'' = Some 0.5 \<and>
   map_of PLUGIN_WEIGHTS ''MovPlugin'' = Some 0.3 \<and>
   map_of PLUGIN_WEIGHTS ''FunctionCrossReferencesToPlugin'' = Some 0.2 \<and>
   map_of PLUGIN_WEIGHTS ''FunctionArgumentCountPlugin'' = Some 0.2 \<and>
   map_of PLUGIN_WEIGHTS ''FunctionBlockCountPlugin'' = Some 0.025 \<and>
   map_of PLUGIN_WEIGHTS ''FunctionInstructionCountPlugin'' = Some 0.025 \<and>
   map_of PLUGIN_WEIGHTS ''FunctionSizePlugin'' = Some 0.025 \<and>
   map_of PLUGIN_WEIGHTS ''FunctionRecursivePlugin'' = Some 0.025 \<and>
   map_of PLUGIN_WEIGHTS ''FunctionIsThunkPlugin'' = Some (- 1.0) \<and>
   map_of PLUGIN_WEIGHTS ''FunctionIsLibraryPlugin'' = Some (- 1.0) \<and>
   dom (map_of PLUGIN_WEIGHTS) =
     {''XORPlugin'', ''ShiftPlugin'', ''MovPlugin'', ''FunctionCrossReferencesToPlugin'',
      ''FunctionArgumentCountPlugin'', ''FunctionBlockCountPlugin'',
      ''FunctionInstructionCountPlugin'', ''FunctionSizePlugin'', ''FunctionRecursivePlugin'',
      ''FunctionIsThunkPlugin'', ''FunctionIsLibraryPlugin''} \<and>
   card (dom (map_of PLUGIN_WEIGHTS)) = 11"
  by (simp add: PLUGIN_WEIGHTS_def dom_map_of_conv_image_fst)

section \<open>Facts about binary64 rounding\<close>

lemma powr_powi: "(2::real) powr real_of_int k = 2 powi k"
  by (simp add: powr_real_of_int power_int_def power_one_over inverse_eq_divide)

lemma floor_log2_eq:
  assumes "(2::real) powi e \<le> x" "x < 2 powi (e + 1)"
  shows "\<lfloor>log 2 x\<rfloor> = e"
proof -
  have "(0::real) < 2 powi e" by simp
  with assms(1) have p: "0 < x" by linarith
  have "(2::real) powr real_of_int e \<le> x" using assms(1) by (simp only: powr_powi)
  moreover have "x < (2::real) powr (real_of_int e + 1)"
    using assms(2) powr_powi [of "e + 1"] by simp
  ultimately show ?thesis
    using p by (simp add: floor_log_eq_powr_iff)
qed

text \<open>Rounding a number whose binade is known and whose rounded value is finite.\<close>

lemma b64_round_normal:
  assumes "(2::real) powi e \<le> \<bar>x\<bar>" "\<bar>x\<bar> < 2 powi (e + 1)" "- 1022 \<le> e"
    and "\<bar>real_of_int (round_half_even (x / 2 powi (e - 52))) * 2 powi (e - 52)\<bar> < 2 powi 1024"
  shows "b64_round x = Num (real_of_int (round_half_even (x / 2 powi (e - 52))) * 2 powi (e - 52))"
proof -
  have pos: "(0::real) < 2 powi e" by simp
  have "x \<noteq> 0"
  proof
    assume "x = 0"
    with assms(1) have "(2::real) powi e \<le> 0" by simp
    with pos show False by linarith
  qed
  moreover have "\<lfloor>log 2 \<bar>x\<bar>\<rfloor> = e" using assms(1,2) by (rule floor_log2_eq)
  ultimately show ?thesis
    using assms(3,4) by (simp add: b64_round_def Let_def max_def)
qed

text \<open>Numbers of the examples that binary64 holds exactly.\<close>

lemma b64_round_0: "b64_round 0 = Num 0"
  by (simp add: b64_round_def)

lemma b64_round_half: "b64_round (1 / 2) = Num (1 / 2)"
  using b64_round_normal [of "- 1" "1 / 2"] by (simp add: round_half_even_def Let_def)

lemma b64_round_quarter: "b64_round (1 / 4) = Num (1 / 4)"
  using b64_round_normal [of "- 2" "1 / 4"] by (simp add: round_half_even_def Let_def)

lemma b64_round_three_quarters: "b64_round (3 / 4) = Num (3 / 4)"
  using b64_round_normal [of "- 1" "3 / 4"] by (simp add: round_half_even_def Let_def)

lemma b64_round_eighth: "b64_round (1 / 8) = Num (1 / 8)"
  using b64_round_normal [of "- 3" "1 / 8"] by (simp add: round_half_even_def Let_def)

lemma b64_round_1: "b64_round 1 = Num 1"
  using b64_round_normal [of 0 1] by (simp add: round_half_even_def Let_def)

lemma b64_round_minus_1: "b64_round (- 1) = Num (- 1)"
  using b64_round_normal [of 0 "- 1"] by (simp add: round_half_even_def Let_def)

lemma b64_round_2: "b64_round 2 = Num 2"
  using b64_round_normal [of 1 2] by (simp add: round_half_even_def Let_def)

lemmas b64_round_exact = b64_round_0 b64_round_half b64_round_quarter b64_round_three_quarters
  b64_round_eighth b64_round_1 b64_round_minus_1 b64_round_2

text \<open>
  The literal \<open>0.025\<close> is not a binary64 number: it denotes \<open>7205759403792794 / 2^58\<close>.
  Adding that number to itself is exact; adding it a third time falls halfway between two
  binary64 numbers and is rounded up, to \<open>5404319552844596 / 2^56\<close>, which Python prints
  as \<open>0.07500000000000001\<close>.
\<close>

lemma b64_round_lit_0025:
  "b64_round (1 / 40) = Num (3602879701896397 / 144115188075855872)"
  using b64_round_normal [of "- 6" "1 / 40"] by (simp add: round_half_even_def Let_def)

lemma b64_round_0025:
  "b64_round (3602879701896397 / 144115188075855872) = Num (3602879701896397 / 144115188075855872)"
  using b64_round_normal [of "- 6" "3602879701896397 / 144115188075855872"]
  by (simp add: round_half_even_def Let_def)

lemma b64_round_0050:
  "b64_round (3602879701896397 / 72057594037927936) = Num (3602879701896397 / 72057594037927936)"
  using b64_round_normal [of "- 5" "3602879701896397 / 72057594037927936"]
  by (simp add: round_half_even_def Let_def)

lemma b64_round_0075:
  "b64_round (10808639105689191 / 144115188075855872) = Num (1351079888211149 / 18014398509481984)"
  using b64_round_normal [of "- 4" "10808639105689191 / 144115188075855872"]
  by (simp add: round_half_even_def Let_def)

section \<open>Weighted scores\<close>

lemma dict_setitem_new: "k \<notin> set (map fst d) \<Longrightarrow> dict_setitem k v d = d @ [(k, v)]"
  by (induction d) auto

text \<open>
  The inner loop either raises for the first plugin name without a weight or returns the
  running total with one float term added for each item, from left to right.
\<close>

lemma total_score_find:
  "(total_score ops t entry :: 'x exn + pyfloat) =
     (case List.find (\<lambda>p. \<not> has_weight p) (map fst entry) of
        Some p \<Rightarrow> Inl (Exception (''Plugin weight not found: '' @ p))
      | None \<Rightarrow>
          Inr (foldl (\<lambda>t (p, s). fadd ops t (fmul ops (flit ops (the (map_of PLUGIN_WEIGHTS p))) s))
                 t entry))"
proof (induction entry arbitrary: t)
  case Nil
  then show ?case by simp
next
  case (Cons x xs)
  obtain p s where x: "x = (p, s)" by (cases x)
  show ?case
    by (cases "map_of PLUGIN_WEIGHTS p")
       (simp_all add: x Cons.IH has_weight_def split: option.splits)
qed

lemma total_score_weighted_sum:
  "(total_score ops (flit ops 0) entry :: 'x exn + pyfloat) =
     (case List.find (\<lambda>p. \<not> has_weight p) (map fst entry) of
        Some p \<Rightarrow> Inl (Exception (''Plugin weight not found: '' @ p))
      | None \<Rightarrow> Inr (weighted_sum ops entry))"
  by (simp add: total_score_find weighted_sum_def split: option.splits)

lemma find_append_if:
  "List.find P (ys @ zs) = (case List.find P ys of None \<Rightarrow> List.find P zs | Some y \<Rightarrow> Some y)"
  by (induction ys) auto

lemma plugin_names_Cons: "plugin_names ((f, e) # xs) = map fst e @ plugin_names xs"
  by (simp add: plugin_names_def)

lemma weigh_functions_find:
  assumes "distinct (map fst cf)" "set (map fst cf) \<inter> set (map fst fw) = {}"
  shows "(weigh_functions ops fw cf :: 'x exn + weighted_scores) =
     (case List.find (\<lambda>p. \<not> has_weight p) (plugin_names cf) of
        Some p \<Rightarrow> Inl (Exception (''Plugin weight not found: '' @ p))
      | None \<Rightarrow> Inr (fw @ map (\<lambda>(f, entry). (f, weighted_sum ops entry)) cf))"
  using assms
proof (induction cf arbitrary: fw)
  case Nil
  then show ?case by (simp add: plugin_names_def)
next
  case (Cons x xs)
  obtain f e where x: "x = (f, e)" by (cases x)
  show ?case
  proof (cases "List.find (\<lambda>p. \<not> has_weight p) (map fst e)")
    case (Some p)
    then show ?thesis
      by (simp add: x plugin_names_Cons find_append_if total_score_weighted_sum)
  next
    case None
    have new: "f \<notin> set (map fst fw)" using Cons.prems by (auto simp: x)
    have d: "distinct (map fst xs)" using Cons.prems by (simp add: x)
    have i: "set (map fst xs) \<inter> set (map fst (fw @ [(f, weighted_sum ops e)])) = {}"
      using Cons.prems by (auto simp: x)
    show ?thesis
      using Cons.IH [OF d i] None
      by (simp add: x plugin_names_Cons find_append_if total_score_weighted_sum
            dict_setitem_new [OF new] split: option.splits)
  qed
qed

lemma weigh_functions_unknown:
  "List.find (\<lambda>p. \<not> has_weight p) (plugin_names cf) = Some p \<Longrightarrow>
     (weigh_functions ops fw cf :: 'x exn + weighted_scores) =
       Inl (Exception (''Plugin weight not found: '' @ p))"
proof (induction cf arbitrary: fw)
  case Nil
  then show ?case by (simp add: plugin_names_def)
next
  case (Cons x xs)
  obtain f e where x: "x = (f, e)" by (cases x)
  show ?case
  proof (cases "List.find (\<lambda>p. \<not> has_weight p) (map fst e)")
    case (Some p')
    with Cons.prems show ?thesis
      by (simp add: x plugin_names_Cons find_append_if total_score_weighted_sum)
  next
    case None
    with Cons.prems have "List.find (\<lambda>p. \<not> has_weight p) (plugin_names xs) = Some p"
      by (simp add: x plugin_names_Cons find_append_if)
    then show ?thesis
      using None by (simp add: x total_score_weighted_sum Cons.IH)
  qed
qed

text \<open>
  Claim C2. When some function's entry of the candidate store holds a plugin name that
  has no weight, \<open>apply_plugin_weights\<close> raises: the exception is
  \<open>Exception("Plugin weight not found: " + name)\<close> for the first such name in the
  order of iteration, a name of the store without a weight. No scores are produced, also
  not for the functions whose plugins all have weights: the manager, and with it
  \<open>candidates_weighted\<close>, is what it was before the call.
\<close>

theorem apply_plugin_weights_unknown_plugin:
  assumes "(f, entry) \<in> set (candidate_functions m)"
    and "(q, s) \<in> set entry"
    and "\<not> has_weight q"
  shows "\<exists>p. List.find (\<lambda>p. \<not> has_weight p) (plugin_names (candidate_functions m)) = Some p \<and>
             p \<in> set (plugin_names (candidate_functions m)) \<and> \<not> has_weight p \<and>
             (apply_plugin_weights ops m :: ('x exn + unit) \<times> 'vw manager) =
               (Inl (Exception (''Plugin weight not found: '' @ p)), m)"
proof -
  have "q \<in> set (plugin_names (candidate_functions m))"
    using assms(1,2) by (force simp: plugin_names_def)
  with assms(3) have "List.find (\<lambda>p. \<not> has_weight p) (plugin_names (candidate_functions m)) \<noteq> None"
    by (auto simp: find_None_iff)
  then obtain p where p: "List.find (\<lambda>p. \<not> has_weight p) (plugin_names (candidate_functions m)) = Some p"
    by auto
  then have "p \<in> set (plugin_names (candidate_functions m))" "\<not> has_weight p"
    by (auto simp: find_Some_iff)
  moreover have "(apply_plugin_weights ops m :: ('x exn + unit) \<times> 'vw manager) =
               (Inl (Exception (''Plugin weight not found: '' @ p)), m)"
    by (simp add: apply_plugin_weights_def weigh_functions_unknown [OF p])
  ultimately show ?thesis using p by blast
qed

text \<open>
  Claim C1, as amended. For a candidate store with each function address once, all of
  whose plugin names have a weight, \<open>apply_plugin_weights\<close> returns and sets
  \<open>candidates_weighted\<close> to a mapping whose keys are exactly the function addresses of the
  store. Its value for a function is the float sum of weight times score over the items
  of that function's entry: begun at \<open>0.0\<close>, with one float product for each plugin name
  that is a key of the entry and for no other, added in floats from left to right in the
  order of the entry. A plugin that is no key of the entry contributes no term. This
  holds whatever the float operations round to.
\<close>

theorem apply_plugin_weights_scores:
  assumes d: "distinct (map fst (candidate_functions m))"
    and known: "list_all has_weight (plugin_names (candidate_functions m))"
  shows "\<exists>fw. (apply_plugin_weights ops m :: ('x exn + unit) \<times> 'vw manager) =
                 (Inr (), m\<lparr>candidates_weighted := Some fw\<rparr>) \<and>
              distinct (map fst fw) \<and>
              set (map fst fw) = set (map fst (candidate_functions m)) \<and>
              (\<forall>f entry. map_of (candidate_functions m) f = Some entry \<longrightarrow>
                 map_of fw f =
                   Some (foldl (\<lambda>t (p, s).
                           fadd ops t (fmul ops (flit ops (the (map_of PLUGIN_WEIGHTS p))) s))
                         (flit ops 0) entry))"
proof -
  let ?cf = "candidate_functions m"
  let ?fw = "map (\<lambda>(f, entry). (f, weighted_sum ops entry)) ?cf"
  have none: "List.find (\<lambda>p. \<not> has_weight p) (plugin_names ?cf) = None"
    using known by (simp add: find_None_iff list_all_iff)
  have w: "(weigh_functions ops [] ?cf :: 'x exn + weighted_scores) = Inr ?fw"
    using weigh_functions_find [of ?cf "[]"] d none by simp
  have keys: "map fst ?fw = map fst ?cf"
    by (simp add: case_prod_unfold comp_def)
  have vals: "map_of ?fw f =
                Some (foldl (\<lambda>t (p, s).
                        fadd ops t (fmul ops (flit ops (the (map_of PLUGIN_WEIGHTS p))) s))
                      (flit ops 0) entry)"
    if "map_of ?cf f = Some entry" for f entry
    using that by (simp add: map_of_map weighted_sum_def)
  have "(apply_plugin_weights ops m :: ('x exn + unit) \<times> 'vw manager) =
                 (Inr (), m\<lparr>candidates_weighted := Some ?fw\<rparr>)"
    by (simp add: apply_plugin_weights_def w)
  moreover have "distinct (map fst ?fw)" by (simp only: keys d)
  moreover have "set (map fst ?fw) = set (map fst ?cf)" by (simp only: keys)
  ultimately show ?thesis using vals by blast
qed

theorem apply_plugin_weights_scores_witness:
  "distinct (map fst
            [(4198400::int, [(''XORPlugin'', Num 1), (''ShiftPlugin'', Num 0.5)]),
             (4202496, [(''XORPlugin'', Num 0), (''FunctionIsThunkPlugin'', Num 1)]),
             (4206592, [(''ShiftPlugin'', Num 0.25)])]) \<and>
   list_all has_weight (plugin_names
            [(4198400, [(''XORPlugin'', Num 1), (''ShiftPlugin'', Num 0.5)]),
             (4202496, [(''XORPlugin'', Num 0), (''FunctionIsThunkPlugin'', Num 1)]),
             (4206592, [(''ShiftPlugin'', Num 0.25)])]) \<and>
   (\<exists>fw. (apply_plugin_weights b64_ops
           \<lparr>vw = (), candidate_functions =
              [(4198400, [(''XORPlugin'', Num 1), (''ShiftPlugin'', Num 0.5)]),
               (4202496, [(''XORPlugin'', Num 0), (''FunctionIsThunkPlugin'', Num 1)]),
               (4206592, [(''ShiftPlugin'', Num 0.25)])],
             candidates_weighted = None\<rparr> :: (unit exn + unit) \<times> unit manager) =
         (Inr (), \<lparr>vw = (), candidate_functions =
              [(4198400, [(''XORPlugin'', Num 1), (''ShiftPlugin'', Num 0.5)]),
               (4202496, [(''XORPlugin'', Num 0), (''FunctionIsThunkPlugin'', Num 1)]),
               (4206592, [(''ShiftPlugin'', Num 0.25)])],
             candidates_weighted = Some fw\<rparr>) \<and>
         set (map fst fw) = {4198400, 4202496, 4206592} \<and>
         map_of fw 4198400 = Some (Num 0.75) \<and> map_of fw 4202496 = Some (Num (- 1)) \<and>
         map_of fw 4206592 = Some (Num 0.125))"
proof -
  let ?S = "[(4198400::int, [(''XORPlugin'', Num 1), (''ShiftPlugin'', Num 0.5)]),
             (4202496, [(''XORPlugin'', Num 0), (''FunctionIsThunkPlugin'', Num 1)]),
             (4206592, [(''ShiftPlugin'', Num 0.25)])]"
  let ?M = "\<lparr>vw = (), candidate_functions = ?S, candidates_weighted = None\<rparr>"
  have d: "distinct (map fst (candidate_functions ?M))"
    by simp
  have known: "list_all has_weight (plugin_names (candidate_functions ?M))"
    by (simp add: plugin_names_def has_weight_def PLUGIN_WEIGHTS_def)
  from apply_plugin_weights_scores [OF d known, where ?'x = unit and ops = b64_ops]
  obtain fw where fw:
    "(apply_plugin_weights b64_ops ?M :: (unit exn + unit) \<times> unit manager) =
       (Inr (), ?M\<lparr>candidates_weighted := Some fw\<rparr>)"
    "set (map fst fw) = set (map fst (candidate_functions ?M))"
    "\<forall>f entry. map_of (candidate_functions ?M) f = Some entry \<longrightarrow>
       map_of fw f =
         Some (foldl (\<lambda>t (p, s). fadd b64_ops t
                        (fmul b64_ops (flit b64_ops (the (map_of PLUGIN_WEIGHTS p))) s))
                 (flit b64_ops 0) entry)"
    by blast
  have "map_of fw 4198400 = Some (Num 0.75)"
    using fw(3) [rule_format, of 4198400 "[(''XORPlugin'', Num 1), (''ShiftPlugin'', Num 0.5)]"]
    by (simp add: PLUGIN_WEIGHTS_def b64_ops_def b64_round_exact)
  moreover have "map_of fw 4202496 = Some (Num (- 1))"
    using fw(3) [rule_format, of 4202496 "[(''XORPlugin'', Num 0), (''FunctionIsThunkPlugin'', Num 1)]"]
    by (simp add: PLUGIN_WEIGHTS_def b64_ops_def b64_round_exact)
  moreover have "map_of fw 4206592 = Some (Num 0.125)"
    using fw(3) [rule_format, of 4206592 "[(''ShiftPlugin'', Num 0.25)]"]
    by (simp add: PLUGIN_WEIGHTS_def b64_ops_def b64_round_exact)
  moreover have "set (map fst fw) = {4198400, 4202496, 4206592}"
    using fw(2) by simp
  ultimately show ?thesis
    using d known fw(1) by auto
qed

theorem apply_plugin_weights_unknown_plugin_witness:
  "(2, [(''FooPlugin'', Num 1)]) \<in>
     set [(1::int, [(''XORPlugin'', Num 1)]), (2, [(''FooPlugin'', Num 1)])] \<and>
   (''FooPlugin'', Num 1) \<in> set [(''FooPlugin'', Num 1)] \<and>
   \<not> has_weight ''FooPlugin'' \<and>
   (apply_plugin_weights b64_ops
      \<lparr>vw = (), candidate_functions =
          [(1, [(''XORPlugin'', Num 1)]), (2, [(''FooPlugin'', Num 1)])],
        candidates_weighted = None\<rparr> :: (unit exn + unit) \<times> unit manager) =
     (Inl (Exception ''Plugin weight not found: FooPlugin''),
      \<lparr>vw = (), candidate_functions =
          [(1, [(''XORPlugin'', Num 1)]), (2, [(''FooPlugin'', Num 1)])],
        candidates_weighted = None\<rparr>)"
proof -
  let ?M = "\<lparr>vw = (), candidate_functions =
               [(1::int, [(''XORPlugin'', Num 1)]), (2, [(''FooPlugin'', Num 1)])],
             candidates_weighted = None\<rparr>"
  have a: "(2, [(''FooPlugin'', Num 1)]) \<in> set (candidate_functions ?M)" by simp
  have b: "(''FooPlugin'', Num 1) \<in> set [(''FooPlugin'', Num 1)]" by simp
  have c: "\<not> has_weight ''FooPlugin''" by (simp add: has_weight_def PLUGIN_WEIGHTS_def)
  have f: "List.find (\<lambda>p. \<not> has_weight p) (plugin_names (candidate_functions ?M)) = Some ''FooPlugin''"
    by (simp add: plugin_names_def has_weight_def PLUGIN_WEIGHTS_def)
  from apply_plugin_weights_unknown_plugin [OF a b c, where ?'x = unit and ops = b64_ops]
  obtain p where
    p: "List.find (\<lambda>p. \<not> has_weight p) (plugin_names (candidate_functions ?M)) = Some p" and
    r: "(apply_plugin_weights b64_ops ?M :: (unit exn + unit) \<times> unit manager) =
          (Inl (Exception (''Plugin weight not found: '' @ p)), ?M)"
    by blast
  from p have "p = ''FooPlugin''" by (simp only: f option.inject)
  with r show ?thesis
    using b c by simp
qed

text \<open>
  Claim C1 as it was stated takes the value to be the sum of the products. The float sum
  is not that sum: for one function with the score 1.0 from the three plugins of weight
  0.025 the code stores \<open>0.07500000000000001\<close>, which is neither three times 0.025 nor
  three times the binary64 number that the literal \<open>0.025\<close> denotes.
\<close>

theorem apply_plugin_weights_rounding_counterexample:
  "(apply_plugin_weights b64_ops
      \<lparr>vw = (), candidate_functions =
         [(1, [(''FunctionBlockCountPlugin'', Num 1), (''FunctionInstructionCountPlugin'', Num 1),
               (''FunctionSizePlugin'', Num 1)])],
        candidates_weighted = None\<rparr> :: (unit exn + unit) \<times> unit manager) =
     (Inr (),
      \<lparr>vw = (), candidate_functions =
         [(1, [(''FunctionBlockCountPlugin'', Num 1), (''FunctionInstructionCountPlugin'', Num 1),
               (''FunctionSizePlugin'', Num 1)])],
        candidates_weighted = Some [(1, Num (5404319552844596 / 2 ^ 56))]\<rparr>) \<and>
   (5404319552844596 / 2 ^ 56 :: real) \<noteq> 0.025 * 1 + 0.025 * 1 + 0.025 * 1 \<and>
   (5404319552844596 / 2 ^ 56 :: real) \<noteq>
     7205759403792794 / 2 ^ 58 * 1 + 7205759403792794 / 2 ^ 58 * 1 + 7205759403792794 / 2 ^ 58 * 1"
  by (simp add: apply_plugin_weights_def PLUGIN_WEIGHTS_def b64_ops_def b64_round_0
        b64_round_lit_0025 b64_round_0025 b64_round_0050 b64_round_0075)

section \<open>Ranking\<close>

subsection \<open>The order of the floats\<close>

lemma fkey_eq_iff: "fkey a = fkey b \<longleftrightarrow> a = b"
  by (cases a; cases b) simp_all

lemma fle_fkey: "a \<noteq> NaN \<Longrightarrow> b \<noteq> NaN \<Longrightarrow> fle a b = (fkey a \<le> fkey b)"
  by (simp add: fle_def)

lemma fle_not_NaN: "fle a b \<Longrightarrow> a \<noteq> NaN \<and> b \<noteq> NaN"
  by (simp add: fle_def)

subsection \<open>The stable sort\<close>

lemma mset_stable_sorted: "mset (stable_sorted key reverse xs) = mset xs"
  by (simp add: stable_sorted_def)

lemma stable_sorted_reverse_sorted:
  assumes "list_all (\<lambda>x. key x \<noteq> NaN) xs"
  shows "sorted_wrt (\<lambda>a b. fle (key b) (key a)) (stable_sorted key True xs)"
proof -
  have "sorted (map (\<lambda>x. fkey (key x)) (sort_key (\<lambda>x. fkey (key x)) (rev xs)))"
    by (rule sorted_sort_key)
  then have "sorted_wrt (\<lambda>a b. fkey (key a) \<le> fkey (key b)) (sort_key (\<lambda>x. fkey (key x)) (rev xs))"
    by (simp only: sorted_map)
  then have s: "sorted_wrt (\<lambda>a b. fkey (key b) \<le> fkey (key a)) (stable_sorted key True xs)"
    by (simp add: stable_sorted_def sorted_wrt_rev)
  have n: "key x \<noteq> NaN" if "x \<in> set (stable_sorted key True xs)" for x
    using that assms by (simp add: stable_sorted_def list_all_iff)
  show ?thesis
    by (rule sorted_wrt_mono_rel [OF _ s]) (simp add: fle_fkey n)
qed

lemma stable_sorted_reverse_stable:
  "filter (\<lambda>y. key y = v) (stable_sorted key True xs) = filter (\<lambda>y. key y = v) xs"
proof -
  have e: "(\<lambda>y. key y = v) = (\<lambda>y. fkey (key y) = fkey v)"
    by (simp add: fkey_eq_iff)
  have "filter (\<lambda>y. fkey (key y) = fkey v) (stable_sorted key True xs) =
          rev (filter (\<lambda>y. fkey (key y) = fkey v) (sort_key (\<lambda>x. fkey (key x)) (rev xs)))"
    by (simp add: stable_sorted_def rev_filter)
  also have "\<dots> = rev (filter (\<lambda>y. fkey (key y) = fkey v) (rev xs))"
    by (simp only: sort_key_stable)
  also have "\<dots> = filter (\<lambda>y. fkey (key y) = fkey v) xs"
    by (simp add: rev_filter)
  finally show ?thesis by (simp only: e)
qed

text \<open>The stable sort is a sort as Python promises it.\<close>

lemma python_sorted_stable_sorted: "python_sorted stable_sorted"
  by (simp add: python_sorted_def mset_stable_sorted)

subsection \<open>What follows from Python's promise\<close>

lemma python_sorted_mset: "python_sorted srt \<Longrightarrow> mset (srt key reverse xs) = mset xs"
  by (simp add: python_sorted_def)

lemma python_sorted_length: "python_sorted srt \<Longrightarrow> length (srt key reverse xs) = length xs"
  using python_sorted_mset [of srt key reverse xs] by (metis size_mset)

lemma python_sorted_nan_free:
  "python_sorted srt \<Longrightarrow> list_all (\<lambda>x. key x \<noteq> NaN) xs \<Longrightarrow>
     srt key reverse xs = stable_sorted key reverse xs"
  by (simp add: python_sorted_def)

text \<open>
  A descending list of two or more entries holds no NaN: \<open>>=\<close> is false of NaN on either
  side.
\<close>

lemma descending_no_NaN:
  assumes "descending xs" and "2 \<le> length xs" and "x \<in> set xs"
  shows "snd x \<noteq> NaN"
proof -
  from assms(3) obtain i where i: "i < length xs" "xs ! i = x"
    by (auto simp: in_set_conv_nth)
  from assms(2) i(1) obtain j where j: "j < length xs" "j \<noteq> i"
    by (cases "i = 0") (auto intro: that [of 0] that [of 1])
  have s: "\<forall>a b. a < b \<longrightarrow> b < length xs \<longrightarrow> fle (snd (xs ! b)) (snd (xs ! a))"
    using assms(1) by (simp add: descending_def sorted_wrt_iff_nth_less)
  show ?thesis
  proof (cases "i < j")
    case True
    with s j(1) have "fle (snd (xs ! j)) (snd (xs ! i))" by blast
    then show ?thesis using i(2) by (auto dest: fle_not_NaN)
  next
    case False
    with j(2) have "j < i" by simp
    with s i(1) have "fle (snd (xs ! i)) (snd (xs ! j))" by blast
    then show ?thesis using i(2) by (auto dest: fle_not_NaN)
  qed
qed

lemma map_fst_filter_distinct:
  "distinct (map fst cw) \<Longrightarrow>
     map fst (filter (\<lambda>x. snd x = k) cw) = filter (\<lambda>f. map_of cw f = Some k) (map fst cw)"
proof (induction cw)
  case Nil
  then show ?case by simp
next
  case (Cons x xs)
  obtain f s where x: "x = (f, s)" by (cases x)
  have "filter (\<lambda>g. map_of (x # xs) g = Some k) (map fst xs) =
        filter (\<lambda>g. map_of xs g = Some k) (map fst xs)"
    using Cons.prems by (intro filter_cong) (auto simp: x)
  then show ?case
    using Cons by (auto simp: x)
qed

subsection \<open>The first n of the ranking\<close>

text \<open>
  Claim C3, as amended. Once the scores are weighted, \<open>get_top_candidate_functions\<close> with
  any \<open>n \<ge> 0\<close> returns, without an error, the first \<open>n\<close> entries of the full ranking:
  exactly \<open>min(n, number of scores)\<close> pairs of address and score, a prefix and so a
  subsequence of the full ranking, which holds the items of the score mapping, each once.
  For \<open>n = 0\<close> the result is the empty list. When no score is NaN, the full ranking and
  the result are in descending order of score.
\<close>

theorem get_top_candidate_functions_prefix:
  assumes ps: "python_sorted srt"
    and cw: "candidates_weighted m = Some cw"
    and n: "0 \<le> n"
  shows "\<exists>ranked top.
           (sort_candidates_by_score srt m :: 'x exn + weighted_scores) = Inr ranked \<and>
           mset ranked = mset cw \<and>
           (get_top_candidate_functions srt m n :: 'x exn + weighted_scores) = Inr top \<and>
           length top = min (nat n) (length cw) \<and>
           top = take (nat n) ranked \<and> prefix top ranked \<and> subseq top ranked \<and>
           (n = 0 \<longrightarrow> top = []) \<and>
           (nan_free cw \<longrightarrow> descending ranked \<and> descending top)"
proof -
  let ?ranked = "srt snd True cw"
  let ?top = "take (nat n) ?ranked"
  have s: "(sort_candidates_by_score srt m :: 'x exn + weighted_scores) = Inr ?ranked"
    using cw by (simp add: sort_candidates_by_score_def)
  have idm: "map (\<lambda>(fva, sc). (fva, sc)) xs = xs" for xs :: weighted_scores
    by (induction xs) auto
  have t: "(get_top_candidate_functions srt m n :: 'x exn + weighted_scores) = Inr ?top"
    using n by (simp add: get_top_candidate_functions_def s slice_upto_def idm)
  have ms: "mset ?ranked = mset cw"
    using ps by (rule python_sorted_mset)
  have l: "length ?top = min (nat n) (length cw)"
    using python_sorted_length [OF ps, of snd True cw] by simp
  have p: "prefix ?top ?ranked" by (rule take_is_prefix)
  then have q: "subseq ?top ?ranked" by (rule prefix_imp_subseq)
  have z: "n = 0 \<longrightarrow> ?top = []" by simp
  have d: "nan_free cw \<longrightarrow> descending ?ranked \<and> descending ?top"
  proof
    assume nf: "nan_free cw"
    then have "?ranked = stable_sorted snd True cw"
      using ps by (simp add: nan_free_def python_sorted_nan_free)
    moreover have "descending (stable_sorted snd True cw)"
      unfolding descending_def using nf
      by (intro stable_sorted_reverse_sorted) (simp add: nan_free_def)
    ultimately have dr: "descending ?ranked" by simp
    then have "descending ?top"
      unfolding descending_def by (rule sorted_wrt_take)
    with dr show "descending ?ranked \<and> descending ?top" ..
  qed
  show ?thesis
    using s t ms l p q z d by blast
qed

theorem get_top_candidate_functions_prefix_witness:
  "python_sorted (stable_sorted :: (addr \<times> pyfloat) sorter) \<and>
   candidates_weighted \<lparr>vw = (), candidate_functions = [],
       candidates_weighted = Some [(4198400, Num 0.75), (4202496, Num (- 1)), (4206592, Num 0.125)]\<rparr> =
     Some [(4198400, Num 0.75), (4202496, Num (- 1)), (4206592, Num 0.125)] \<and> (0::int) \<le> 2 \<and>
   nan_free [(4198400, Num 0.75), (4202496, Num (- 1)), (4206592, Num 0.125)] \<and>
   (get_top_candidate_functions stable_sorted \<lparr>vw = (), candidate_functions = [],
       candidates_weighted = Some [(4198400, Num 0.75), (4202496, Num (- 1)), (4206592, Num 0.125)]\<rparr> 2
      :: unit exn + weighted_scores) = Inr [(4198400, Num 0.75), (4206592, Num 0.125)] \<and>
   descending [(4198400, Num 0.75), (4206592, Num 0.125)]"
proof -
  let ?cw = "[(4198400::int, Num 0.75), (4202496, Num (- 1)), (4206592, Num 0.125)]"
  let ?W = "\<lparr>vw = (), candidate_functions = [], candidates_weighted = Some ?cw\<rparr>"
  have a: "candidates_weighted ?W = Some ?cw" by simp
  have b: "(0::int) \<le> 2" by simp
  have nf: "nan_free ?cw" by (simp add: nan_free_def)
  have r: "(sort_candidates_by_score stable_sorted ?W :: unit exn + weighted_scores) =
             Inr [(4198400, Num 0.75), (4206592, Num 0.125), (4202496, Num (- 1))]"
    by (simp add: sort_candidates_by_score_def stable_sorted_def)
  from get_top_candidate_functions_prefix [OF python_sorted_stable_sorted a b, where ?'x = unit]
  obtain ranked top where
    s: "(sort_candidates_by_score stable_sorted ?W :: unit exn + weighted_scores) = Inr ranked" and
    t: "(get_top_candidate_functions stable_sorted ?W 2 :: unit exn + weighted_scores) = Inr top" and
    tk: "top = take (nat 2) ranked" and
    d: "nan_free ?cw \<longrightarrow> descending ranked \<and> descending top"
    by blast
  from s [unfolded r] have rk: "ranked = [(4198400, Num 0.75), (4206592, Num 0.125), (4202496, Num (- 1))]"
    by simp
  have tp: "top = [(4198400, Num 0.75), (4206592, Num 0.125)]"
    by (simp add: tk rk)
  from d nf have "descending top" by simp
  with t tp show ?thesis
    using b nf python_sorted_stable_sorted by simp
qed

text \<open>
  Claim C3 as it was stated, for every score mapping, fails where a score is NaN. With the
  scores \<open>{1: 0.5, 2: nan, 3: 1.0}\<close> and \<open>n = 3\<close> the result holds all three entries, and
  no order of them is descending: whatever a sort that keeps Python's promise returns,
  \<open>get_top_candidate_functions\<close> does not return a descending list.
\<close>

theorem get_top_candidate_functions_nan_counterexample:
  "\<not> (\<exists>srt. python_sorted srt \<and>
         (\<exists>top. (get_top_candidate_functions srt
                   \<lparr>vw = (), candidate_functions = [],
                     candidates_weighted = Some [(1, Num 0.5), (2, NaN), (3, Num 1)]\<rparr> 3
                  :: unit exn + weighted_scores) = Inr top \<and>
                descending top))"
proof
  let ?cw = "[(1::int, Num 0.5), (2, NaN), (3, Num 1)]"
  let ?W = "\<lparr>vw = (), candidate_functions = [], candidates_weighted = Some ?cw\<rparr>"
  assume "\<exists>srt. python_sorted srt \<and>
         (\<exists>top. (get_top_candidate_functions srt ?W 3 :: unit exn + weighted_scores) = Inr top \<and>
                descending top)"
  then obtain srt top where ps: "python_sorted srt"
    and t: "(get_top_candidate_functions srt ?W 3 :: unit exn + weighted_scores) = Inr top"
    and d: "descending top"
    by blast
  have idm: "map (\<lambda>(fva, sc). (fva, sc)) xs = xs" for xs :: weighted_scores
    by (induction xs) auto
  have l: "length (srt snd True ?cw) = 3"
    using python_sorted_length [OF ps, of snd True ?cw] by simp
  from t have "top = take 3 (srt snd True ?cw)"
    by (simp add: get_top_candidate_functions_def sort_candidates_by_score_def slice_upto_def idm)
  with l have top: "top = srt snd True ?cw" by simp
  then have "mset top = mset ?cw"
    using ps by (simp add: python_sorted_mset)
  then have "set top = set ?cw" by (rule mset_eq_setD)
  then have "(2, NaN) \<in> set top" by simp
  moreover have "2 \<le> length top" using top l by simp
  ultimately have "snd (2::int, NaN) \<noteq> NaN"
    using d by (intro descending_no_NaN)
  then show False by simp
qed

subsection \<open>Ties\<close>

text \<open>
  Claim C10, as amended. After \<open>apply_plugin_weights\<close> has succeeded on a store with each
  function address once, the weighted scores list the addresses in the key order of the
  store, that is the order in which the addresses were first inserted, and the ranking
  holds the same items. When no weighted score is NaN, the ranking is a stable descending
  sort: it is in descending order of score and, for every score, the addresses with that
  score stand in the ranking in the key order of the store.
\<close>

theorem sort_candidates_by_score_stable:
  assumes ps: "python_sorted srt"
    and d: "distinct (map fst (candidate_functions m0))"
    and ap: "(apply_plugin_weights ops m0 :: ('x exn + unit) \<times> 'vw manager) = (Inr (), m)"
  shows "\<exists>cw ranked.
           candidates_weighted m = Some cw \<and>
           map fst cw = map fst (candidate_functions m0) \<and>
           (sort_candidates_by_score srt m :: 'x exn + weighted_scores) = Inr ranked \<and>
           mset ranked = mset cw \<and>
           (nan_free cw \<longrightarrow>
              descending ranked \<and>
              (\<forall>v. map fst (filter (\<lambda>x. snd x = v) ranked) =
                     filter (\<lambda>f. map_of cw f = Some v) (map fst (candidate_functions m0))))"
proof -
  let ?cf = "candidate_functions m0"
  let ?cw = "map (\<lambda>(f, entry). (f, weighted_sum ops entry)) ?cf"
  let ?ranked = "srt snd True ?cw"
  have w: "(weigh_functions ops [] ?cf :: 'x exn + weighted_scores) =
     (case List.find (\<lambda>p. \<not> has_weight p) (plugin_names ?cf) of
        Some p \<Rightarrow> Inl (Exception (''Plugin weight not found: '' @ p))
      | None \<Rightarrow> Inr ?cw)"
  proof -
    have e: "set (map fst ?cf) \<inter> set (map fst ([] :: weighted_scores)) = {}" by simp
    show ?thesis
      using weigh_functions_find [OF d e, where ?'x = 'x and ops = ops]
      by (cases "List.find (\<lambda>p. \<not> has_weight p) (plugin_names ?cf)") simp_all
  qed
  have m: "m = m0\<lparr>candidates_weighted := Some ?cw\<rparr>"
    using ap by (auto simp: apply_plugin_weights_def w split: option.splits)
  have keys: "map fst ?cw = map fst ?cf"
    by (simp add: case_prod_unfold comp_def)
  have c: "candidates_weighted m = Some ?cw" by (simp add: m)
  have s: "(sort_candidates_by_score srt m :: 'x exn + weighted_scores) = Inr ?ranked"
    by (simp add: sort_candidates_by_score_def c)
  have ms: "mset ?ranked = mset ?cw"
    using ps by (rule python_sorted_mset)
  have dcw: "distinct (map fst ?cw)" by (simp only: keys d)
  have st: "nan_free ?cw \<longrightarrow>
              descending ?ranked \<and>
              (\<forall>v. map fst (filter (\<lambda>x. snd x = v) ?ranked) =
                     filter (\<lambda>f. map_of ?cw f = Some v) (map fst ?cf))"
  proof
    assume nf: "nan_free ?cw"
    then have r: "?ranked = stable_sorted snd True ?cw"
      using ps by (simp add: nan_free_def python_sorted_nan_free)
    have "descending (stable_sorted snd True ?cw)"
      unfolding descending_def using nf
      by (intro stable_sorted_reverse_sorted) (simp add: nan_free_def)
    then have dr: "descending ?ranked" by (simp only: r)
    have "map fst (filter (\<lambda>x. snd x = v) ?ranked) =
            filter (\<lambda>f. map_of ?cw f = Some v) (map fst ?cf)" for v
    proof -
      have "map fst (filter (\<lambda>x. snd x = v) ?ranked) = map fst (filter (\<lambda>x. snd x = v) ?cw)"
        by (simp only: r stable_sorted_reverse_stable)
      also have "\<dots> = filter (\<lambda>f. map_of ?cw f = Some v) (map fst ?cw)"
        using dcw by (rule map_fst_filter_distinct)
      finally show ?thesis by (simp only: keys)
    qed
    with dr show "descending ?ranked \<and>
              (\<forall>v. map fst (filter (\<lambda>x. snd x = v) ?ranked) =
                     filter (\<lambda>f. map_of ?cw f = Some v) (map fst ?cf))"
      by blast
  qed
  show ?thesis
    using c keys s ms st by blast
qed

theorem sort_candidates_by_score_stable_witness:
  "python_sorted (stable_sorted :: (addr \<times> pyfloat) sorter) \<and>
   distinct (map fst [(2::int, [(''FunctionIsThunkPlugin'', Num 1)]), (3, [(''XORPlugin'', Num 1)]),
                      (1, [(''ShiftPlugin'', Num 1)])]) \<and>
   (apply_plugin_weights b64_ops \<lparr>vw = (), candidate_functions =
        [(2, [(''FunctionIsThunkPlugin'', Num 1)]), (3, [(''XORPlugin'', Num 1)]),
         (1, [(''ShiftPlugin'', Num 1)])],
        candidates_weighted = None\<rparr> :: (unit exn + unit) \<times> unit manager) =
     (Inr (), \<lparr>vw = (), candidate_functions =
        [(2, [(''FunctionIsThunkPlugin'', Num 1)]), (3, [(''XORPlugin'', Num 1)]),
         (1, [(''ShiftPlugin'', Num 1)])],
        candidates_weighted = Some [(2, Num (- 1)), (3, Num 0.5), (1, Num 0.5)]\<rparr>) \<and>
   nan_free [(2, Num (- 1)), (3, Num 0.5), (1, Num 0.5)] \<and>
   (sort_candidates_by_score stable_sorted \<lparr>vw = (), candidate_functions =
        [(2, [(''FunctionIsThunkPlugin'', Num 1)]), (3, [(''XORPlugin'', Num 1)]),
         (1, [(''ShiftPlugin'', Num 1)])],
        candidates_weighted = Some [(2, Num (- 1)), (3, Num 0.5), (1, Num 0.5)]\<rparr>
      :: unit exn + weighted_scores) = Inr [(3, Num 0.5), (1, Num 0.5), (2, Num (- 1))]"
proof -
  let ?S = "[(2::int, [(''FunctionIsThunkPlugin'', Num 1)]), (3, [(''XORPlugin'', Num 1)]),
             (1, [(''ShiftPlugin'', Num 1)])]"
  let ?Mbefore = "\<lparr>vw = (), candidate_functions = ?S, candidates_weighted = None\<rparr>"
  let ?Mafter = "\<lparr>vw = (), candidate_functions = ?S,
             candidates_weighted = Some [(2, Num (- 1)), (3, Num 0.5), (1, Num 0.5)]\<rparr>"
  have a: "distinct (map fst (candidate_functions ?Mbefore))" by simp
  have b: "(apply_plugin_weights b64_ops ?Mbefore :: (unit exn + unit) \<times> unit manager) =
             (Inr (), ?Mafter)"
    by (simp add: apply_plugin_weights_def PLUGIN_WEIGHTS_def b64_ops_def b64_round_exact)
  have nf: "nan_free [(2::int, Num (- 1)), (3, Num 0.5), (1, Num 0.5)]"
    by (simp add: nan_free_def)
  have r: "(sort_candidates_by_score stable_sorted ?Mafter :: unit exn + weighted_scores) =
             Inr [(3, Num 0.5), (1, Num 0.5), (2, Num (- 1))]"
    by (simp add: sort_candidates_by_score_def stable_sorted_def)
  from sort_candidates_by_score_stable [OF python_sorted_stable_sorted a b]
  obtain ranked where
    s: "(sort_candidates_by_score stable_sorted ?Mafter :: unit exn + weighted_scores) = Inr ranked"
    by blast
  from s [unfolded r] have "ranked = [(3, Num 0.5), (1, Num 0.5), (2, Num (- 1))]" by simp
  with s show ?thesis using a b nf python_sorted_stable_sorted by simp
qed

text \<open>
  Claim C10 as it was stated, for every score mapping, fails where a score is NaN. Seven
  functions get from one plugin of weight 0.5 the scores 2, 2, 2, NaN, 0, 0, 4; the
  weighted scores are 1, 1, 1, NaN, 0, 0, 2, and no sort that keeps Python's promise
  returns a descending ranking of them.
\<close>

theorem sort_candidates_by_score_nan_counterexample:
  "\<exists>m. (apply_plugin_weights b64_ops
          \<lparr>vw = (), candidate_functions =
             [(0, [(''XORPlugin'', Num 2)]), (1, [(''XORPlugin'', Num 2)]),
              (2, [(''XORPlugin'', Num 2)]), (3, [(''XORPlugin'', NaN)]),
              (4, [(''XORPlugin'', Num 0)]), (5, [(''XORPlugin'', Num 0)]),
              (6, [(''XORPlugin'', Num 4)])],
            candidates_weighted = None\<rparr> :: (unit exn + unit) \<times> unit manager) = (Inr (), m) \<and>
       candidates_weighted m =
         Some [(0, Num 1), (1, Num 1), (2, Num 1), (3, NaN), (4, Num 0), (5, Num 0), (6, Num 2)] \<and>
       \<not> (\<exists>srt. python_sorted srt \<and>
              (\<exists>ranked. (sort_candidates_by_score srt m :: unit exn + weighted_scores) = Inr ranked \<and>
                        descending ranked))"
proof -
  let ?S = "[(0::int, [(''XORPlugin'', Num 2)]), (1, [(''XORPlugin'', Num 2)]),
             (2, [(''XORPlugin'', Num 2)]), (3, [(''XORPlugin'', NaN)]),
             (4, [(''XORPlugin'', Num 0)]), (5, [(''XORPlugin'', Num 0)]),
             (6, [(''XORPlugin'', Num 4)])]"
  let ?cw = "[(0::int, Num 1), (1, Num 1), (2, Num 1), (3, NaN), (4, Num 0), (5, Num 0),
              (6, Num 2)]"
  let ?Mafter = "\<lparr>vw = (), candidate_functions = ?S, candidates_weighted = Some ?cw\<rparr>"
  have ap: "(apply_plugin_weights b64_ops
               \<lparr>vw = (), candidate_functions = ?S, candidates_weighted = None\<rparr>
             :: (unit exn + unit) \<times> unit manager) = (Inr (), ?Mafter)"
    by (simp add: apply_plugin_weights_def PLUGIN_WEIGHTS_def b64_ops_def b64_round_exact)
  have no: "\<not> (\<exists>srt. python_sorted srt \<and>
              (\<exists>ranked. (sort_candidates_by_score srt ?Mafter :: unit exn + weighted_scores) = Inr ranked \<and>
                        descending ranked))"
  proof
    assume "\<exists>srt. python_sorted srt \<and>
              (\<exists>ranked. (sort_candidates_by_score srt ?Mafter :: unit exn + weighted_scores) = Inr ranked \<and>
                        descending ranked)"
    then obtain srt ranked where ps: "python_sorted srt"
      and s: "(sort_candidates_by_score srt ?Mafter :: unit exn + weighted_scores) = Inr ranked"
      and dr: "descending ranked"
      by blast
    from s have r: "ranked = srt snd True ?cw"
      by (simp add: sort_candidates_by_score_def)
    then have "mset ranked = mset ?cw"
      using ps by (simp add: python_sorted_mset)
    then have "set ranked = set ?cw" by (rule mset_eq_setD)
    then have "(3, NaN) \<in> set ranked" by simp
    moreover have "2 \<le> length ranked"
      using python_sorted_length [OF ps, of snd True ?cw] r by simp
    ultimately have "snd (3::int, NaN) \<noteq> NaN"
      using dr by (intro descending_no_NaN)
    then show False by simp
  qed
  show ?thesis
    using ap no by (intro exI [of _ ?Mafter]) simp
qed

section \<open>The order of the keys and the shape of the store\<close>

text \<open>
  Merging keeps the position of every function address that is already a key and appends
  the new ones in the order in which the plugin's result lists them: the key order of the
  store is the order of first insertion.
\<close>

lemma merge_candidate_keys:
  "map fst (merge_candidate p cf (f, s)) =
     (if f \<in> set (map fst cf) then map fst cf else map fst cf @ [f])"
proof (cases "map_of cf f")
  case None
  then have "f \<notin> set (map fst cf)" by (simp add: map_of_eq_None_iff)
  then show ?thesis using None by (simp add: keys_dict_setitem)
next
  case (Some entry)
  then have "(f, entry) \<in> set cf" by (rule map_of_SomeD)
  then have "f \<in> set (map fst cf)" by force
  then show ?thesis using Some by (simp add: keys_dict_setitem)
qed

lemma foldl_merge_candidate_keys:
  "distinct (map fst c) \<Longrightarrow>
     map fst (foldl (merge_candidate p) cf c) =
       map fst cf @ filter (\<lambda>f. f \<notin> set (map fst cf)) (map fst c)"
proof (induction c arbitrary: cf)
  case Nil
  then show ?case by simp
next
  case (Cons x xs)
  obtain f s where x: "x = (f, s)" by (cases x)
  have d: "distinct (map fst xs)" and n: "f \<notin> set (map fst xs)"
    using Cons.prems by (simp_all add: x)
  show ?case
  proof (cases "f \<in> set (map fst cf)")
    case True
    then show ?thesis
      using Cons.IH [OF d, of "merge_candidate p cf (f, s)"]
      by (simp add: x merge_candidate_keys del: merge_candidate.simps)
  next
    case False
    have "filter (\<lambda>g. g \<notin> set (map fst cf) \<and> g \<noteq> f) (map fst xs) =
          filter (\<lambda>g. g \<notin> set (map fst cf)) (map fst xs)"
      using n by (intro filter_cong) auto
    then show ?thesis
      using False Cons.IH [OF d, of "merge_candidate p cf (f, s)"]
      by (simp add: x merge_candidate_keys conj_commute del: merge_candidate.simps)
  qed
qed

lemma merge_candidates_keys:
  "distinct (map fst c) \<Longrightarrow>
     map fst (candidate_functions (merge_candidates m p (Some c))) =
       map fst (candidate_functions m) @
       filter (\<lambda>f. f \<notin> set (map fst (candidate_functions m))) (map fst c)"
  using foldl_merge_candidate_keys [of c p "candidate_functions m"]
  by (cases c) (simp_all add: merge_candidates_def)

text \<open>
  Every store that the manager builds is well formed: the empty store is, and merging and
  running plugins keep it so.
\<close>

lemma distinct_dict_setitem:
  "distinct (map fst d) \<Longrightarrow> distinct (map fst (dict_setitem k v d))"
  by (simp add: keys_dict_setitem)

lemma list_all_dict_setitem:
  "list_all P d \<Longrightarrow> P (k, v) \<Longrightarrow> list_all P (dict_setitem k v d)"
  by (induction d) auto

lemma wf_store_merge_candidate:
  assumes "wf_store cf"
  shows "wf_store (merge_candidate p cf x)"
proof -
  obtain f s where x: "x = (f, s)" by (cases x)
  have d: "distinct (map fst (merge_candidate p cf (f, s)))"
    using assms by (simp add: merge_candidate_keys wf_store_def del: merge_candidate.simps)
  have e: "list_all (\<lambda>(f, entry). distinct (map fst entry)) (merge_candidate p cf (f, s))"
  proof (cases "map_of cf f")
    case None
    then show ?thesis
      using assms by (simp add: wf_store_def list_all_dict_setitem)
  next
    case (Some entry)
    then have "(f, entry) \<in> set cf" by (rule map_of_SomeD)
    then have "distinct (map fst entry)"
      using assms by (auto simp: wf_store_def list_all_iff)
    then show ?thesis
      using assms Some by (simp add: wf_store_def list_all_dict_setitem distinct_dict_setitem)
  qed
  show ?thesis using d e by (simp add: x wf_store_def del: merge_candidate.simps)
qed

lemma wf_store_foldl:
  "wf_store cf \<Longrightarrow> wf_store (foldl (merge_candidate p) cf c)"
  by (induction c arbitrary: cf) (simp_all add: wf_store_merge_candidate del: merge_candidate.simps)

lemma wf_store_merge_candidates:
  "wf_store (candidate_functions m) \<Longrightarrow>
     wf_store (candidate_functions (merge_candidates m p r))"
  by (simp add: merge_candidates_def wf_store_foldl wf_store_merge_candidate
        del: merge_candidate.simps split: option.splits list.splits)

lemma wf_store_init: "wf_store (candidate_functions (init_manager v))"
  by (simp add: init_manager_def wf_store_def)

lemma wf_store_run_plugins:
  "wf_store (candidate_functions m) \<Longrightarrow> run_plugins m ps fs raw w = (r, m', w') \<Longrightarrow>
     wf_store (candidate_functions m')"
proof (induction ps arbitrary: m w)
  case Nil
  then show ?case by simp
next
  case (Cons p ps)
  show ?case
    using Cons.prems Cons.IH wf_store_merge_candidates [OF Cons.prems(1)]
    by (auto split: prod.splits sum.splits if_splits)
qed

section \<open>Exceptions of plugins\<close>

lemma run_plugins_append:
  "run_plugins m (ps @ qs) fs raw w =
     (case run_plugins m ps fs raw w of
        (Inl e, m1, w1) \<Rightarrow> (Inl e, m1, w1)
      | (Inr u, m1, w1) \<Rightarrow> run_plugins m1 qs fs raw w1)"
proof (induction ps arbitrary: m w)
  case Nil
  then show ?case by simp
next
  case (Cons p ps)
  obtain r1 w1 where i: "identify p (vw m) fs w = (r1, w1)"
    by (cases "identify p (vw m) fs w")
  show ?case
  proof (cases r1)
    case (Inl e)
    with i show ?thesis by simp
  next
    case (Inr dc)
    show ?thesis
    proof (cases raw)
      case True
      with i Inr show ?thesis
        using Cons.IH [of "merge_candidates m (plugin_str p) dc" w1] by simp
    next
      case False
      obtain r2 w2 where sc: "score p dc (vw m) w1 = (r2, w2)"
        by (cases "score p dc (vw m) w1")
      show ?thesis
      proof (cases r2)
        case (Inl e)
        with i \<open>r1 = Inr dc\<close> False sc show ?thesis by simp
      next
        case (Inr scored)
        with i \<open>r1 = Inr dc\<close> False sc show ?thesis
          using Cons.IH [of "merge_candidates m (plugin_str p) scored" w2] by simp
      qed
    qed
  qed
qed

lemma run_plugins_raise:
  assumes "identify p (vw m) fs w = (Inl e, w2) \<or>
           (\<not> raw \<and> (\<exists>dc w'. identify p (vw m) fs w = (Inr dc, w') \<and>
                                 score p dc (vw m) w' = (Inl e, w2)))"
  shows "run_plugins m (p # qs) fs raw w = (Inl e, m, w2)"
  using assms by auto

text \<open>
  Claim C4. Let the plugins before \<open>p\<close> run without an exception, and let \<open>p\<close>'s
  \<open>identify\<close>, or (when scores are not raw) \<open>p\<close>'s \<open>score\<close>, raise \<open>e\<close>. Then
  \<open>run_plugins\<close> ends with exactly \<open>e\<close>, whatever plugins follow \<open>p\<close> in the list: the
  manager is the one before \<open>p\<close> and the plugins' world is the one the raising call left,
  so no later plugin was called. \<open>identify_decoding_functions\<close> ends with the same
  exception \<open>e\<close> and returns no ranking; weighting and ranking are not reached.
\<close>

theorem plugin_exception_propagates:
  assumes ok: "run_plugins m ps fs raw w = (Inr (), m1, w1)"
    and fail: "identify p (vw m1) fs w1 = (Inl e, w2) \<or>
           (\<not> raw \<and> (\<exists>dc w'. identify p (vw m1) fs w1 = (Inr dc, w') \<and>
                                 score p dc (vw m1) w' = (Inl e, w2)))"
  shows "run_plugins m (ps @ p # qs) fs raw w = (Inl e, m1, w2) \<and>
         (m = init_manager v \<and> \<not> raw \<longrightarrow>
            identify_decoding_functions ops srt (ps @ p # qs) v fs cnt w = (Inl e, w2))"
proof -
  have r: "run_plugins m (ps @ p # qs) fs raw w = (Inl e, m1, w2)"
    by (simp add: run_plugins_append ok run_plugins_raise [OF fail] del: run_plugins.simps)
  then show ?thesis
    by (auto simp: identify_decoding_functions_def simp del: run_plugins.simps)
qed

theorem plugin_exception_propagates_witness:
  "run_plugins (init_manager ())
       [returning_plugin ''XORPlugin'' (Some [(1, Num 1)]) :: (unit, string list, string) plugin]
       [1, 2] False [] =
     (Inr (), \<lparr>vw = (), candidate_functions = [(1, [(''XORPlugin'', Num 1)])],
               candidates_weighted = None\<rparr>,
      [''identify XORPlugin'', ''score XORPlugin'']) \<and>
   identify (raising_plugin ''MovPlugin'' ''boom'') () [1, 2]
       [''identify XORPlugin'', ''score XORPlugin''] =
     (Inl (PluginRaised ''boom''),
      [''identify XORPlugin'', ''score XORPlugin'', ''identify MovPlugin'']) \<and>
   identify_decoding_functions b64_ops stable_sorted
       ([returning_plugin ''XORPlugin'' (Some [(1, Num 1)])] @
        raising_plugin ''MovPlugin'' ''boom'' #
        [returning_plugin ''ShiftPlugin'' (Some [(2, Num 1)])]) () [1, 2] 10 [] =
     (Inl (PluginRaised ''boom''),
      [''identify XORPlugin'', ''score XORPlugin'', ''identify MovPlugin''])"
proof -
  let ?m1 = "\<lparr>vw = (), candidate_functions = [(1::int, [(''XORPlugin'', Num 1)])],
               candidates_weighted = None\<rparr>"
  let ?w1 = "[''identify XORPlugin'', ''score XORPlugin'']"
  let ?w2 = "[''identify XORPlugin'', ''score XORPlugin'', ''identify MovPlugin'']"
  let ?p = "raising_plugin ''MovPlugin'' ''boom'' :: (unit, string list, string) plugin"
  have ok: "run_plugins (init_manager ())
              [returning_plugin ''XORPlugin'' (Some [(1, Num 1)]) :: (unit, string list, string) plugin]
              [1, 2] False [] = (Inr (), ?m1, ?w1)"
    by (simp add: init_manager_def returning_plugin_def merge_candidates_def)
  have i: "identify ?p () [1, 2] ?w1 = (Inl (PluginRaised ''boom''), ?w2)"
    by (simp add: raising_plugin_def)
  have fail: "identify ?p (vw ?m1) [1, 2] ?w1 = (Inl (PluginRaised ''boom''), ?w2) \<or>
           (\<not> False \<and> (\<exists>dc w'. identify ?p (vw ?m1) [1, 2] ?w1 = (Inr dc, w') \<and>
                                 score ?p dc (vw ?m1) w' = (Inl (PluginRaised ''boom''), ?w2)))"
    using i by simp
  from plugin_exception_propagates [OF ok fail, where qs = "[returning_plugin ''ShiftPlugin'' (Some [(2, Num 1)])]" and v = "()" and cnt = 10
      and ops = b64_ops and srt = stable_sorted]
  have "identify_decoding_functions b64_ops stable_sorted
       ([returning_plugin ''XORPlugin'' (Some [(1, Num 1)])] @
        ?p # [returning_plugin ''ShiftPlugin'' (Some [(2, Num 1)])]) () [1, 2] 10 [] =
     (Inl (PluginRaised ''boom''), ?w2)"
    by simp
  with ok i show ?thesis by simp
qed

section \<open>A negative count\<close>

text \<open>
  Claim C7. A negative \<open>count\<close> should be rejected or give the empty list, never a
  non-empty result; the docstring of \<open>identify_decoding_functions\<close> calls \<open>count\<close> the
  maximal number of results. The code slices the ranking with \<open>[:count]\<close>, which for a
  negative \<open>count\<close> drops entries from the end: with two scored functions and
  \<open>count = -1\<close> the entry point returns one entry.
\<close>

theorem negative_count_returns_entries:
  "identify_decoding_functions b64_ops stable_sorted
     [returning_plugin ''XORPlugin'' (Some [(1, Num 1), (2, Num 0.5)])
        :: (unit, string list, unit) plugin]
     () [1, 2] (- 1) [] =
   (Inr [(1, Num 0.5)], [''identify XORPlugin'', ''score XORPlugin''])"
  by (simp add: identify_decoding_functions_def init_manager_def returning_plugin_def
        merge_candidates_def apply_plugin_weights_def PLUGIN_WEIGHTS_def b64_ops_def
        b64_round_exact
        get_top_candidate_functions_def sort_candidates_by_score_def stable_sorted_def
        slice_upto_def)

text \<open>
  The same at the method that slices, for every sort that keeps Python's promise and
  every score mapping: a negative \<open>n\<close> returns all entries of the ranking but the last
  \<open>-n\<close>, so a non-empty list as soon as there are more than \<open>-n\<close> scores.
\<close>

lemma negative_count_get_top:
  assumes "python_sorted srt" and "candidates_weighted m = Some cw" and "n < 0"
  shows "\<exists>top. (get_top_candidate_functions srt m n :: 'x exn + weighted_scores) = Inr top \<and>
               length top = nat (int (length cw) + n)"
proof -
  have idm: "map (\<lambda>(fva, sc). (fva, sc)) xs = xs" for xs :: weighted_scores
    by (induction xs) auto
  have "(get_top_candidate_functions srt m n :: 'x exn + weighted_scores) =
          Inr (take (nat (int (length cw) + n)) (srt snd True cw))"
    using assms python_sorted_length [OF assms(1), of snd True cw]
    by (simp add: get_top_candidate_functions_def sort_candidates_by_score_def slice_upto_def idm)
  then show ?thesis
    using python_sorted_length [OF assms(1), of snd True cw] assms(3) by auto
qed

end
